theory Spec2Isabelle
  imports Main "HOL-Library.Word"
begin

unbundle bit_operations_syntax

section \<open>Go values: byte slices, errors, panics\<close>

text \<open>
  The decoder of \<^verbatim>\<open>dnsutils/dns.go\<close> works on Go byte slices. A Go slice has a length
  and a capacity: \<^verbatim>\<open>s[i]\<close> panics unless \<^verbatim>\<open>0 <= i < len(s)\<close>, whereas the slice
  expression \<^verbatim>\<open>s[lo:hi]\<close> panics unless \<^verbatim>\<open>0 <= lo <= hi <= cap(s)\<close>, so it can
  reach bytes of the backing array past the length. A slice is therefore modelled by
  the bytes below its length (\<open>elems\<close>) and the bytes of the backing array between
  length and capacity (\<open>spare\<close>). The sub-slice \<^verbatim>\<open>payload[a:b]\<close> that the answer
  decoder hands to the resource-data parsers always has the rest of the payload as spare
  capacity.

  Go's \<^verbatim>\<open>int\<close> is taken as 64 bits wide and modelled by \<open>int\<close>: every offset the
  decoder computes is at most the capacity of the payload plus a small constant, far
  from the 64-bit limit.
\<close>

type_synonym byte = "8 word"

datatype slice = Slice (elems: "byte list") (spare: "byte list")

text \<open>A Go call either panics or returns its tuple of results.\<close>

datatype 'a outcome = Panic | Return 'a

fun andThen :: "'a outcome \<Rightarrow> ('a \<Rightarrow> 'b outcome) \<Rightarrow> 'b outcome" where
  "andThen Panic f = Panic"
| "andThen (Return x) f = f x"

text \<open>The seven error values of the package; Go's \<^verbatim>\<open>nil\<close> error is \<open>None\<close>.\<close>

datatype error =
    ErrDecodeDnsHeaderTooShort
  | ErrDecodeDnsLabelInvalidOffset
  | ErrDecodeDnsLabelInvalidOffsetInfiniteLoop
  | ErrDecodeDnsLabelTooShort
  | ErrDecodeQuestionQtypeTooShort
  | ErrDecodeDnsAnswerTooShort
  | ErrDecodeDnsAnswerRdataTooShort

definition len :: "slice \<Rightarrow> int" where
  "len s = int (length (elems s))"

definition cap :: "slice \<Rightarrow> int" where
  "cap s = int (length (elems s) + length (spare s))"

text \<open>\<^verbatim>\<open>s[i]\<close>\<close>

definition index :: "slice \<Rightarrow> int \<Rightarrow> byte outcome" where
  "index s i = (if 0 \<le> i \<and> i < len s then Return (elems s ! nat i) else Panic)"

text \<open>\<^verbatim>\<open>s[lo:hi]\<close>, \<^verbatim>\<open>s[lo:]\<close> and \<^verbatim>\<open>s[:hi]\<close>\<close>

definition slice :: "slice \<Rightarrow> int \<Rightarrow> int \<Rightarrow> slice outcome" where
  "slice s lo hi =
     (if 0 \<le> lo \<and> lo \<le> hi \<and> hi \<le> cap s
      then Return (Slice (take (nat (hi - lo)) (drop (nat lo) (elems s @ spare s)))
                         (drop (nat hi) (elems s @ spare s)))
      else Panic)"

definition slice_from :: "slice \<Rightarrow> int \<Rightarrow> slice outcome" where
  "slice_from s lo = slice s lo (len s)"

definition slice_to :: "slice \<Rightarrow> int \<Rightarrow> slice outcome" where
  "slice_to s hi = slice s 0 hi"

text \<open>
  \<^verbatim>\<open>binary.BigEndian.Uint16(b)\<close> and \<^verbatim>\<open>Uint32(b)\<close> of the Go standard library: a bounds
  check on the last byte read (\<^verbatim>\<open>_ = b[1]\<close>, \<^verbatim>\<open>_ = b[3]\<close>), then the bytes, most
  significant first.
\<close>

definition Uint16 :: "slice \<Rightarrow> 16 word outcome" where
  "Uint16 b =
     (if len b < 2 then Panic
      else Return (ucast (elems b ! 1) OR push_bit 8 (ucast (elems b ! 0))))"

definition Uint32 :: "slice \<Rightarrow> 32 word outcome" where
  "Uint32 b =
     (if len b < 4 then Panic
      else Return (ucast (elems b ! 3) OR push_bit 8 (ucast (elems b ! 2))
                   OR push_bit 16 (ucast (elems b ! 1)) OR push_bit 24 (ucast (elems b ! 0))))"

text \<open>\<^verbatim>\<open>binary.BigEndian.Uint16(s[lo:hi])\<close> and \<^verbatim>\<open>binary.BigEndian.Uint32(s[lo:hi])\<close>\<close>

definition be16 :: "slice \<Rightarrow> int \<Rightarrow> int \<Rightarrow> 16 word outcome" where
  "be16 s lo hi = andThen (slice s lo hi) Uint16"

definition be32 :: "slice \<Rightarrow> int \<Rightarrow> int \<Rightarrow> 32 word outcome" where
  "be32 s lo hi = andThen (slice s lo hi) Uint32"

section \<open>Strings\<close>

text \<open>
  A Go string is a sequence of bytes, here a \<open>string\<close> with one character per byte.
  \<open>string_of\<close> is the conversion \<^verbatim>\<open>string(b)\<close> of a byte slice, \<open>Join\<close> is
  \<^verbatim>\<open>strings.Join\<close>, \<open>Itoa\<close> is \<^verbatim>\<open>strconv.Itoa\<close> (also the verb \<^verbatim>\<open>%d\<close> of
  \<^verbatim>\<open>fmt.Sprintf\<close>), and \<open>hex\<close> is the verb \<^verbatim>\<open>%x\<close> on an unsigned integer.
\<close>

definition string_of :: "slice \<Rightarrow> string" where
  "string_of b = map (\<lambda>x. char_of (unat x)) (elems b)"

fun Join :: "string list \<Rightarrow> string \<Rightarrow> string" where
  "Join [] sep = []"
| "Join [x] sep = x"
| "Join (x # y # ys) sep = x @ sep @ Join (y # ys) sep"

definition digit :: "nat \<Rightarrow> char" where
  "digit d = ''0123456789abcdef'' ! d"

function numeral_of :: "nat \<Rightarrow> nat \<Rightarrow> string" where
  "numeral_of base n =
     (if base < 2 \<or> n < base then [digit n]
      else numeral_of base (n div base) @ [digit (n mod base)])"
  by pat_completeness auto
termination
  by (relation "measure (\<lambda>(base, n). n)") auto

definition Itoa :: "int \<Rightarrow> string" where
  "Itoa i = (if i < 0 then ''-'' @ numeral_of 10 (nat (- i)) else numeral_of 10 (nat i))"

definition hex :: "nat \<Rightarrow> string" where
  "hex n = numeral_of 16 n"

section \<open>The lookup tables\<close>

definition Rdatatypes :: "int \<rightharpoonup> string" where
  "Rdatatypes = map_of
    [(0, ''NONE''), (1, ''A''), (2, ''NS''), (3, ''MD''), (4, ''MF''), (5, ''CNAME''),
     (6, ''SOA''), (7, ''MB''), (8, ''MG''), (9, ''MR''), (10, ''NULL''), (11, ''WKS''),
     (12, ''PTR''), (13, ''HINFO''), (14, ''MINFO''), (15, ''MX''), (16, ''TXT''),
     (17, ''RP''), (18, ''AFSDB''), (19, ''X25''), (20, ''ISDN''), (21, ''RT''),
     (22, ''NSAP''), (23, ''NSAP_PTR''), (24, ''SIG''), (25, ''KEY''), (26, ''PX''),
     (27, ''GPOS''), (28, ''AAAA''), (29, ''LOC''), (30, ''NXT''), (33, ''SRV''),
     (35, ''NAPTR''), (36, ''KX''), (37, ''CERT''), (38, ''A6''), (39, ''DNAME''),
     (41, ''OPT''), (42, ''APL''), (43, ''DS''), (44, ''SSHFP''), (45, ''IPSECKEY''),
     (46, ''RRSIG''), (47, ''NSEC''), (48, ''DNSKEY''), (49, ''DHCID''), (50, ''NSEC3''),
     (51, ''NSEC3PARAM''), (52, ''TSLA''), (53, ''SMIMEA''), (55, ''HIP''), (56, ''NINFO''),
     (59, ''CDS''), (60, ''CDNSKEY''), (61, ''OPENPGPKEY''), (62, ''CSYNC''), (64, ''SVCB''),
     (65, ''HTTPS''), (99, ''SPF''), (103, ''UNSPEC''), (108, ''EUI48''), (109, ''EUI64''),
     (249, ''TKEY''), (250, ''TSIG''), (251, ''IXFR''), (252, ''AXFR''), (253, ''MAILB''),
     (254, ''MAILA''), (255, ''ANY''), (256, ''URI''), (257, ''CAA''), (258, ''AVC''),
     (259, ''AMTRELAY''), (32768, ''TA''), (32769, ''DLV'')]"

definition Rcodes :: "int \<rightharpoonup> string" where
  "Rcodes = map_of
    [(0, ''NOERROR''), (1, ''FORMERR''), (2, ''SERVFAIL''), (3, ''NXDOMAIN''), (4, ''NOIMP''),
     (5, ''REFUSED''), (6, ''YXDOMAIN''), (7, ''YXRRSET''), (8, ''NXRRSET''), (9, ''NOTAUTH''),
     (10, ''NOTZONE''), (11, ''DSOTYPENI''), (16, ''BADSIG''), (17, ''BADKEY''),
     (18, ''BADTIME''), (19, ''BADMODE''), (20, ''BADNAME''), (21, ''BADALG''),
     (22, ''BADTRUNC''), (23, ''BADCOOKIE'')]"

definition RdatatypeToString :: "int \<Rightarrow> string" where
  "RdatatypeToString rrtype =
     (case Rdatatypes rrtype of Some v \<Rightarrow> v | None \<Rightarrow> ''UNKNOWN'')"

definition RcodeToString :: "int \<Rightarrow> string" where
  "RcodeToString rcode =
     (case Rcodes rcode of Some v \<Rightarrow> v | None \<Rightarrow> ''UNKNOWN'')"

section \<open>The header\<close>

definition DnsLen :: int where
  "DnsLen = 12"

record DnsHeader =
  Id :: int
  Qr :: int
  Opcode :: int
  Aa :: int
  Tc :: int
  Rd :: int
  Ra :: int
  Z :: int
  Ad :: int
  Cd :: int
  Rcode :: int
  Qdcount :: int
  Ancount :: int
  Nscount :: int
  Arcount :: int

text \<open>The zero value \<^verbatim>\<open>DnsHeader{}\<close>.\<close>

definition DnsHeader_zero :: DnsHeader where
  "DnsHeader_zero =
     \<lparr>Id = 0, Qr = 0, Opcode = 0, Aa = 0, Tc = 0, Rd = 0, Ra = 0, Z = 0, Ad = 0, Cd = 0,
      Rcode = 0, Qdcount = 0, Ancount = 0, Nscount = 0, Arcount = 0\<rparr>"

text \<open>
  \<^verbatim>\<open>DecodeDns\<close>: the length check, then one assignment per field, in the order of the
  source. The flag word \<^verbatim>\<open>payload[2:4]\<close> is read once for every flag.
\<close>

definition DecodeDns :: "slice \<Rightarrow> (DnsHeader \<times> error option) outcome" where
  "DecodeDns payload =
     (let dh = DnsHeader_zero in
      if len payload < DnsLen then Return (dh, Some ErrDecodeDnsHeaderTooShort)
      else
        andThen (andThen (slice_to payload 2) Uint16) (\<lambda>w. let dh = dh\<lparr>Id := uint w\<rparr> in
        andThen (be16 payload 2 4) (\<lambda>w. let dh = dh\<lparr>Qr := uint (drop_bit 15 w)\<rparr> in
        andThen (be16 payload 2 4) (\<lambda>w. let dh = dh\<lparr>Opcode := uint (drop_bit (3 + 8) w AND 15)\<rparr> in
        andThen (be16 payload 2 4) (\<lambda>w. let dh = dh\<lparr>Aa := uint (drop_bit (2 + 8) w AND 1)\<rparr> in
        andThen (be16 payload 2 4) (\<lambda>w. let dh = dh\<lparr>Tc := uint (drop_bit (1 + 8) w AND 1)\<rparr> in
        andThen (be16 payload 2 4) (\<lambda>w. let dh = dh\<lparr>Rd := uint (drop_bit 8 w AND 1)\<rparr> in
        andThen (be16 payload 2 4) (\<lambda>w. let dh = dh\<lparr>Cd := uint (drop_bit 4 w AND 1)\<rparr> in
        andThen (be16 payload 2 4) (\<lambda>w. let dh = dh\<lparr>Ad := uint (drop_bit 5 w AND 1)\<rparr> in
        andThen (be16 payload 2 4) (\<lambda>w. let dh = dh\<lparr>Z := uint (drop_bit 6 w AND 1)\<rparr> in
        andThen (be16 payload 2 4) (\<lambda>w. let dh = dh\<lparr>Ra := uint (drop_bit 7 w AND 1)\<rparr> in
        andThen (be16 payload 2 4) (\<lambda>w. let dh = dh\<lparr>Rcode := uint (w AND 15)\<rparr> in
        andThen (be16 payload 4 6) (\<lambda>w. let dh = dh\<lparr>Qdcount := uint w\<rparr> in
        andThen (be16 payload 6 8) (\<lambda>w. let dh = dh\<lparr>Ancount := uint w\<rparr> in
        andThen (be16 payload 8 10) (\<lambda>w. let dh = dh\<lparr>Nscount := uint w\<rparr> in
        andThen (be16 payload 10 12) (\<lambda>w. let dh = dh\<lparr>Arcount := uint w\<rparr> in
        Return (dh, None)))))))))))))))))"

section \<open>The label resolver\<close>

text \<open>
  \<^verbatim>\<open>_ParseLabels\<close> is a loop over the local variables \<^verbatim>\<open>labels\<close> and \<^verbatim>\<open>offset\<close> that
  calls itself at a compression pointer. \<open>ParseLabels_loop\<close> is one pass of that loop
  from the given state; the recursive call of the source enters the loop with an empty
  label list. The map of visited pointer targets is a Go map, shared by reference and
  updated in place; a call reads it only before its single recursive call and
  \<^verbatim>\<open>ParseLabels\<close> drops it on return, so the model passes the enlarged map down and does
  not return it.
\<close>

function ParseLabels_loop ::
  "int \<Rightarrow> slice \<Rightarrow> (16 word \<rightharpoonup> int) \<Rightarrow> string list \<Rightarrow> (string \<times> int \<times> error option) outcome"
where
  "ParseLabels_loop offset payload pointers labels =
     (if offset \<ge> len payload then Return ([], 0, Some ErrDecodeDnsLabelInvalidOffset)
      else
        andThen (index payload offset) (\<lambda>b. let length = uint b in
        if length = 0 then Return (Join labels ''.'', offset + 1, None)
        else if drop_bit 6 length = 3 then
          andThen (be16 payload offset (offset + 2)) (\<lambda>w. let ptr = w AND 16383 in
          if pointers ptr \<noteq> None
          then Return ([], 0, Some ErrDecodeDnsLabelInvalidOffsetInfiniteLoop)
          else
            andThen (ParseLabels_loop (uint ptr) payload (pointers(ptr \<mapsto> 1)) [])
              (\<lambda>(label, _, err).
                 if err \<noteq> None then Return ([], 0, err)
                 else Return (Join (labels @ [label]) ''.'', offset + 2, None)))
        else if offset + length + 1 \<ge> len payload
          then Return ([], 0, Some ErrDecodeDnsLabelTooShort)
          else
            andThen (slice payload (offset + 1) (offset + length + 1)) (\<lambda>label.
            ParseLabels_loop (offset + length + 1) payload pointers
              (labels @ [string_of label]))))"
  by pat_completeness auto
termination
proof (relation "measures [\<lambda>(offset, payload, pointers, labels). card (- dom pointers),
                           \<lambda>(offset, payload, pointers, labels). nat (len payload - offset)]",
       goal_cases)
  case 1
  show ?case by simp
next
  case (2 offset payload pointers labels b length w ptr)
  then have "ptr \<in> - dom pointers" by auto
  then have "card (- dom (pointers(ptr \<mapsto> 1))) < card (- dom pointers)"
    by (intro psubset_card_mono) auto
  then show ?case by simp
next
  case (3 offset payload pointers labels b length label)
  from 3 show ?case by simp (insert uint_ge_0 [of b], linarith)
qed

definition ParseLabels_rec ::
  "int \<Rightarrow> slice \<Rightarrow> (16 word \<rightharpoonup> int) \<Rightarrow> (string \<times> int \<times> error option) outcome" where
  "ParseLabels_rec offset payload pointers = ParseLabels_loop offset payload pointers []"

definition ParseLabels :: "int \<Rightarrow> slice \<Rightarrow> (string \<times> int \<times> error option) outcome" where
  "ParseLabels offset payload = (let ptrs = Map.empty in ParseLabels_rec offset payload ptrs)"

section \<open>The resource-data parsers\<close>

text \<open>
  Every parser returns a string and an error. The loops of \<^verbatim>\<open>ParseA\<close> and
  \<^verbatim>\<open>ParseAAAA\<close> run over the index \<^verbatim>\<open>i\<close> and append to \<^verbatim>\<open>ip\<close>.
\<close>

function ParseA_loop :: "slice \<Rightarrow> int \<Rightarrow> string list \<Rightarrow> string list outcome" where
  "ParseA_loop r i ip =
     (if i < len r
      then andThen (index r i) (\<lambda>x. ParseA_loop r (i + 1) (ip @ [Itoa (uint x)]))
      else Return ip)"
  by pat_completeness auto
termination
  by (relation "measure (\<lambda>(r, i, ip). nat (len r - i))") auto

definition ParseA :: "slice \<Rightarrow> (string \<times> error option) outcome" where
  "ParseA r = andThen (ParseA_loop r 0 []) (\<lambda>ip. let a = Join ip ''.'' in Return (a, None))"

function ParseAAAA_loop :: "slice \<Rightarrow> int \<Rightarrow> string list \<Rightarrow> string list outcome" where
  "ParseAAAA_loop rdata i ip =
     (if i < len rdata
      then andThen (be16 rdata i (i + 2)) (\<lambda>w. ParseAAAA_loop rdata (i + 2) (ip @ [hex (unat w)]))
      else Return ip)"
  by pat_completeness auto
termination
  by (relation "measure (\<lambda>(rdata, i, ip). nat (len rdata - i))") auto

definition ParseAAAA :: "slice \<Rightarrow> (string \<times> error option) outcome" where
  "ParseAAAA rdata =
     andThen (ParseAAAA_loop rdata 0 []) (\<lambda>ip. let aaaa = Join ip '':'' in Return (aaaa, None))"

definition ParseCNAME :: "int \<Rightarrow> slice \<Rightarrow> (string \<times> error option) outcome" where
  "ParseCNAME rdata_offset payload =
     andThen (ParseLabels rdata_offset payload) (\<lambda>(cname, _, err).
     if err \<noteq> None then Return ([], err) else Return (cname, err))"

definition ParseMX :: "int \<Rightarrow> slice \<Rightarrow> (string \<times> error option) outcome" where
  "ParseMX rdata_offset payload =
     andThen (be16 payload rdata_offset (rdata_offset + 2)) (\<lambda>pref.
     andThen (ParseLabels (rdata_offset + 2) payload) (\<lambda>(host, _, err).
     if err \<noteq> None then Return ([], err)
     else let mx = Itoa (uint pref) @ '' '' @ host in Return (mx, err)))"

definition ParseSRV :: "int \<Rightarrow> slice \<Rightarrow> (string \<times> error option) outcome" where
  "ParseSRV rdata_offset payload =
     andThen (be16 payload rdata_offset (rdata_offset + 2)) (\<lambda>priority.
     andThen (be16 payload (rdata_offset + 2) (rdata_offset + 4)) (\<lambda>weight.
     andThen (be16 payload (rdata_offset + 4) (rdata_offset + 6)) (\<lambda>port.
     andThen (ParseLabels (rdata_offset + 6) payload) (\<lambda>(target, _, err).
     if err \<noteq> None then Return ([], err)
     else let srv = Itoa (uint priority) @ '' '' @ Itoa (uint weight) @ '' '' @
                    Itoa (uint port) @ '' '' @ target
          in Return (srv, err)))))"

definition ParseNS :: "int \<Rightarrow> slice \<Rightarrow> (string \<times> error option) outcome" where
  "ParseNS rdata_offset payload =
     andThen (ParseLabels rdata_offset payload) (\<lambda>(ns, _, err).
     if err \<noteq> None then Return ([], err) else Return (ns, err))"

definition ParseTXT :: "slice \<Rightarrow> (string \<times> error option) outcome" where
  "ParseTXT rdata =
     andThen (index rdata 0) (\<lambda>b. let length = uint b in
     andThen (slice rdata 1 (length + 1)) (\<lambda>t. let txt = string_of t in
     Return (txt, None)))"

definition ParsePTR :: "int \<Rightarrow> slice \<Rightarrow> (string \<times> error option) outcome" where
  "ParsePTR rdata_offset payload =
     andThen (ParseLabels rdata_offset payload) (\<lambda>(ptr, _, err).
     if err \<noteq> None then Return ([], err) else Return (ptr, err))"

text \<open>
  \<^verbatim>\<open>ParseSOA\<close>: the serial and the minimum are printed as unsigned 32-bit values, the
  refresh, retry and expire fields after conversion to \<^verbatim>\<open>int32\<close>.
\<close>

definition ParseSOA :: "int \<Rightarrow> slice \<Rightarrow> (string \<times> error option) outcome" where
  "ParseSOA rdata_offset payload =
     andThen (ParseLabels rdata_offset payload) (\<lambda>(primaryNS, offset, err).
     if err \<noteq> None then Return ([], err) else
     andThen (ParseLabels offset payload) (\<lambda>(respMailbox, offset, err).
     if err \<noteq> None then Return ([], err) else
     andThen (slice_from payload offset) (\<lambda>rdata.
     andThen (be32 rdata 0 4) (\<lambda>serial.
     andThen (be32 rdata 4 8) (\<lambda>refresh.
     andThen (be32 rdata 8 12) (\<lambda>retry.
     andThen (be32 rdata 12 16) (\<lambda>expire.
     andThen (be32 rdata 16 20) (\<lambda>minimum.
     let soa = primaryNS @ '' '' @ respMailbox @ '' '' @ Itoa (uint serial) @ '' '' @
               Itoa (sint refresh) @ '' '' @ Itoa (sint retry) @ '' '' @
               Itoa (sint expire) @ '' '' @ Itoa (uint minimum)
     in Return (soa, None)))))))))"

definition ParseRdata ::
  "string \<Rightarrow> slice \<Rightarrow> slice \<Rightarrow> int \<Rightarrow> (string \<times> error option) outcome" where
  "ParseRdata rdatatype rdata payload rdata_offset =
     (if rdatatype = ''A'' then ParseA rdata
      else if rdatatype = ''AAAA'' then ParseAAAA rdata
      else if rdatatype = ''CNAME'' then ParseCNAME rdata_offset payload
      else if rdatatype = ''MX'' then ParseMX rdata_offset payload
      else if rdatatype = ''SRV'' then ParseSRV rdata_offset payload
      else if rdatatype = ''NS'' then ParseNS rdata_offset payload
      else if rdatatype = ''TXT'' then ParseTXT rdata
      else if rdatatype = ''PTR'' then ParsePTR rdata_offset payload
      else if rdatatype = ''SOA'' then ParseSOA rdata_offset payload
      else Return (''-'', None))"

section \<open>The question and the answer section\<close>

definition DecodeQuestion :: "slice \<Rightarrow> (string \<times> int \<times> int \<times> error option) outcome" where
  "DecodeQuestion payload =
     andThen (ParseLabels DnsLen payload) (\<lambda>(qname, offset, err).
     if err \<noteq> None then Return ([], 0, 0, err) else
     andThen (slice_from payload offset) (\<lambda>rest.
     if len rest < 4 then Return ([], 0, 0, Some ErrDecodeQuestionQtypeTooShort)
     else
       andThen (be16 payload offset (offset + 2)) (\<lambda>qtype. let offset = offset + 4 in
       Return (qname, uint qtype, offset, err))))"

text \<open>
  The struct \<^verbatim>\<open>DnsAnswer\<close> is declared in a file of the package that is not part of the
  sources at hand; its fields are the five that \<^verbatim>\<open>DecodeAnswer\<close> assigns.
\<close>

record DnsAnswer =
  Name :: string
  Rdatatype :: string
  Class :: int
  Ttl :: int
  Rdata :: string

text \<open>
  \<^verbatim>\<open>DecodeAnswer\<close>: the loop \<^verbatim>\<open>for i := 0; i < ancount; i++\<close> over the state
  \<^verbatim>\<open>offset\<close>, \<^verbatim>\<open>answers\<close>; the first argument of \<open>DecodeAnswer_loop\<close> is the number of
  iterations left, \<^verbatim>\<open>ancount - i\<close>. The \<^verbatim>\<open>continue\<close> of the OPT branch goes to the
  next iteration with \<^verbatim>\<open>offset\<close> and \<^verbatim>\<open>answers\<close> as they are.
\<close>

fun DecodeAnswer_loop ::
  "nat \<Rightarrow> slice \<Rightarrow> int \<Rightarrow> DnsAnswer list \<Rightarrow> (DnsAnswer list \<times> int \<times> error option) outcome"
where
  "DecodeAnswer_loop 0 payload offset answers = Return (answers, offset, None)"
| "DecodeAnswer_loop (Suc n) payload offset answers =
     andThen (ParseLabels offset payload) (\<lambda>(name, offset_next, err).
     if err \<noteq> None then Return (answers, offset, err) else
     andThen (slice_from payload offset_next) (\<lambda>rest.
     if len rest < 10 then Return (answers, offset, Some ErrDecodeDnsAnswerTooShort) else
     andThen (be16 payload offset_next (offset_next + 2)) (\<lambda>t.
     andThen (be16 payload (offset_next + 2) (offset_next + 4)) (\<lambda>class.
     andThen (be32 payload (offset_next + 4) (offset_next + 8)) (\<lambda>ttl.
     andThen (be16 payload (offset_next + 8) (offset_next + 10)) (\<lambda>rdlength.
     andThen (slice_from payload (offset_next + 10)) (\<lambda>rest.
     if len rest < uint rdlength
     then Return (answers, offset, Some ErrDecodeDnsAnswerRdataTooShort) else
     andThen (slice payload (offset_next + 10) (offset_next + 10 + uint rdlength)) (\<lambda>rdata.
     if t = 41 then DecodeAnswer_loop n payload offset answers
     else
       let rdatatype = RdatatypeToString (uint t) in
       andThen (ParseRdata rdatatype rdata payload (offset_next + 10)) (\<lambda>(parsed, err).
       if err \<noteq> None then Return (answers, offset, err) else
       let a = \<lparr>Name = name, Rdatatype = rdatatype, Class = uint class, Ttl = uint ttl,
                Rdata = parsed\<rparr>;
           answers = answers @ [a];
           offset = offset_next + 10 + uint rdlength
       in DecodeAnswer_loop n payload offset answers)))))))))"

definition DecodeAnswer ::
  "int \<Rightarrow> int \<Rightarrow> slice \<Rightarrow> (DnsAnswer list \<times> int \<times> error option) outcome" where
  "DecodeAnswer ancount start_offset payload =
     (let offset = start_offset; answers = [] in
      DecodeAnswer_loop (nat ancount) payload offset answers)"

section \<open>The filtering subprocessor\<close>

text \<open>
  \<^verbatim>\<open>CheckIfDrop\<close> of \<^verbatim>\<open>subprocessors/filtering.go\<close> reads three settings of the
  configuration, the three lists of the processor and four fields of the message. The
  types \<^verbatim>\<open>Config\<close> and \<^verbatim>\<open>DnsMessage\<close> and the constants \<^verbatim>\<open>DnsQuery\<close> and
  \<^verbatim>\<open>DnsReply\<close> are declared in files of \<^verbatim>\<open>dnsutils\<close> that are not part of the sources
  at hand: the records below hold the fields that are read, and the two constants are
  parameters of the function. A compiled regular expression is the predicate its
  \<^verbatim>\<open>MatchString\<close> computes. A loop over the keys or values of a Go map that returns
  \<^verbatim>\<open>true\<close> at the first hit returns \<^verbatim>\<open>true\<close> exactly when some key or value hits.
\<close>

record FilteringConfig =
  LogQueries :: bool
  LogReplies :: bool
  DropRcodes :: "string list"

record FilteringProcessor =
  config :: FilteringConfig
  dropDomains :: bool
  listQueryIp :: "string \<rightharpoonup> bool"
  listFqdns :: "string \<rightharpoonup> bool"
  listDomainsRegex :: "string \<rightharpoonup> (string \<Rightarrow> bool)"

record DnsMessage =
  DNS_Type :: string
  DNS_Rcode :: string
  DNS_Qname :: string
  NetworkInfo_QueryIp :: string

definition CheckIfDrop :: "string \<Rightarrow> string \<Rightarrow> FilteringProcessor \<Rightarrow> DnsMessage \<Rightarrow> bool" where
  "CheckIfDrop DnsQuery DnsReply p dm =
     (if \<not> LogQueries (config p) \<and> DNS_Type dm = DnsQuery then True
      else if \<not> LogReplies (config p) \<and> DNS_Type dm = DnsReply then True
      else if list_ex (\<lambda>v. v = DNS_Rcode dm) (DropRcodes (config p)) then True
      else if dom (listQueryIp p) \<noteq> {} \<and> (\<exists>k \<in> dom (listQueryIp p). NetworkInfo_QueryIp dm = k)
        then True
      else if dropDomains p \<and> (\<exists>k \<in> dom (listFqdns p). DNS_Qname dm = k) then True
      else if dropDomains p \<and> (\<exists>r \<in> ran (listDomainsRegex p). r (DNS_Qname dm)) then True
      else False)"

section \<open>Notions used in the statements\<close>

text \<open>The big-endian 16-bit value of the bytes \<open>i\<close> and \<open>i + 1\<close> of a slice.\<close>

definition word_at :: "slice \<Rightarrow> nat \<Rightarrow> int" where
  "word_at s i = 256 * uint (elems s ! i) + uint (elems s ! Suc i)"

text \<open>
  The notions below describe a name in the payload without running the resolver.
  \<open>name_end payload offset\<close> scans the literal labels that start at \<open>offset\<close>: the
  sequence ends in a zero byte (\<open>Ends\<close>, with the offset behind it), in a compression
  pointer whose two bytes lie in the payload (\<open>Points\<close>, with the target, the low 14 bits
  of the big-endian word, and the offset behind the pointer), or it is \<open>Broken\<close>: the
  offset is outside the payload, a label does not leave a byte behind it, or the second
  byte of a pointer is missing.
\<close>

datatype ending = Ends int | Points "16 word" int | Broken

function name_end :: "slice \<Rightarrow> int \<Rightarrow> ending" where
  "name_end payload offset =
     (if offset < 0 \<or> len payload \<le> offset then Broken
      else let length = uint (elems payload ! nat offset) in
        if length = 0 then Ends (offset + 1)
        else if drop_bit 6 length = 3 then
          (if offset + 2 \<le> len payload
           then Points (word_of_int (word_at payload (nat offset) mod 16384)) (offset + 2)
           else Broken)
        else if len payload \<le> offset + length + 1 then Broken
        else name_end payload (offset + length + 1))"
  by pat_completeness auto
termination
proof (relation "measure (\<lambda>(payload, offset). nat (len payload - offset))", goal_cases)
  case 1
  show ?case by simp
next
  case (2 payload offset length)
  then show ?case
    by simp (insert uint_ge_0 [of "elems payload ! nat offset"], linarith)
qed

definition target :: "slice \<Rightarrow> int \<Rightarrow> 16 word option" where
  "target payload offset = (case name_end payload offset of Points t _ \<Rightarrow> Some t | _ \<Rightarrow> None)"

definition end_offset :: "slice \<Rightarrow> int \<Rightarrow> int option" where
  "end_offset payload offset =
     (case name_end payload offset of Ends off \<Rightarrow> Some off | Points _ off \<Rightarrow> Some off | Broken \<Rightarrow> None)"

text \<open>
  \<open>follows payload offset ts\<close>: following compression pointers from \<open>offset\<close> leads
  through the targets \<open>ts\<close>, in this order. \<open>chain payload offset ts\<close>: the same, and
  the name at the last target ends in a zero byte.
\<close>

fun follows :: "slice \<Rightarrow> int \<Rightarrow> 16 word list \<Rightarrow> bool" where
  "follows payload offset [] = True"
| "follows payload offset (t # ts) = (target payload offset = Some t \<and> follows payload (uint t) ts)"

fun chain :: "slice \<Rightarrow> int \<Rightarrow> 16 word list \<Rightarrow> bool" where
  "chain payload offset [] = (case name_end payload offset of Ends _ \<Rightarrow> True | _ \<Rightarrow> False)"
| "chain payload offset (t # ts) = (target payload offset = Some t \<and> chain payload (uint t) ts)"

section \<open>Reading big-endian words\<close>

lemma be16_within:
  assumes "0 \<le> lo" "hi = lo + 2" "hi \<le> len s"
  shows "be16 s lo hi =
         Return (ucast (elems s ! nat (lo + 1)) OR push_bit 8 (ucast (elems s ! nat lo)))"
  using assms
  by (simp add: be16_def slice_def Uint16_def len_def cap_def nth_append nat_add_distrib)

lemma int_and_15: "(k::int) AND 15 = k mod 16"
  using take_bit_eq_mask [of 4 k] by (simp add: take_bit_eq_mod mask_eq_exp_minus_1)

lemma int_and_1: "(k::int) AND 1 = k mod 2"
  by (simp add: and_one_eq)

lemma take_bit_16_uint: "take_bit 16 (uint (w::16 word)) = uint w"
  using uint_lt2p [of w] by (intro take_bit_int_eq_self) simp_all

lemma take_bit_16_byte: "take_bit 16 (uint (b::byte)) = uint b"
  using uint_lt2p [of b] by (intro take_bit_int_eq_self) simp_all

lemma take_bit_16_push_byte: "take_bit 16 (push_bit 8 (uint (b::byte))) = push_bit 8 (uint b)"
  using uint_lt2p [of b] by (intro take_bit_int_eq_self) (simp_all add: push_bit_eq_mult)

lemma uint_top: "uint (drop_bit n (w::16 word)) = uint w div 2 ^ n"
proof -
  have "uint (drop_bit n w) = drop_bit n (uint w)"
    using take_bit_16_uint [of w] by (simp only: unsigned_drop_bit_eq) simp
  then show ?thesis by (simp only: drop_bit_eq_div)
qed

lemma uint_field: "uint (drop_bit n (w::16 word) AND 15) = uint w div 2 ^ n mod 16"
  by (simp add: unsigned_and_eq uint_top int_and_15)

lemma uint_flag: "uint (drop_bit n (w::16 word) AND 1) = uint w div 2 ^ n mod 2"
  by (simp add: unsigned_and_eq uint_top int_and_1)

lemma uint_low: "uint ((w::16 word) AND 15) = uint w mod 16"
  by (simp add: unsigned_and_eq int_and_15)

lemma byte_disjoint: "uint (b1::byte) AND push_bit 8 (k::int) = 0"
  by (auto simp: bit_eq_iff bit_simps dest: bit_imp_le_length)

lemma uint_be16:
  "uint (ucast (b1::byte) OR push_bit 8 (ucast (b0::byte)) :: 16 word) = 256 * uint b0 + uint b1"
proof -
  have "uint (ucast b1 OR push_bit 8 (ucast b0) :: 16 word) = uint b1 OR push_bit 8 (uint b0)"
    by (simp add: unsigned_or_eq unsigned_push_bit_eq unsigned_ucast_eq
          take_bit_16_byte take_bit_16_push_byte)
  also have "\<dots> = uint b1 + push_bit 8 (uint b0)"
    by (rule disjunctive_add_eq_or [symmetric]) (rule byte_disjoint)
  finally show ?thesis by (simp add: push_bit_eq_mult)
qed


section \<open>The header decoder\<close>

lemma uint_be16_within:
  assumes "hi = int i + 2" "hi \<le> len s"
  shows "andThen (be16 s (int i) hi) f =
         f (ucast (elems s ! Suc i) OR push_bit 8 (ucast (elems s ! i)))"
  using assms by (simp add: be16_within nat_add_distrib)

lemma DecodeDns_short:
  "len payload < 12 \<Longrightarrow> DecodeDns payload = Return (DnsHeader_zero, Some ErrDecodeDnsHeaderTooShort)"
  by (simp add: DecodeDns_def DnsLen_def)

lemma DecodeDns_long:
  assumes "12 \<le> len payload"
  shows "DecodeDns payload =
     Return (\<lparr>Id = word_at payload 0,
              Qr = word_at payload 2 div 2 ^ 15,
              Opcode = word_at payload 2 div 2 ^ 11 mod 16,
              Aa = word_at payload 2 div 2 ^ 10 mod 2,
              Tc = word_at payload 2 div 2 ^ 9 mod 2,
              Rd = word_at payload 2 div 2 ^ 8 mod 2,
              Ra = word_at payload 2 div 2 ^ 7 mod 2,
              Z = word_at payload 2 div 2 ^ 6 mod 2,
              Ad = word_at payload 2 div 2 ^ 5 mod 2,
              Cd = word_at payload 2 div 2 ^ 4 mod 2,
              Rcode = word_at payload 2 mod 16,
              Qdcount = word_at payload 4,
              Ancount = word_at payload 6,
              Nscount = word_at payload 8,
              Arcount = word_at payload 10\<rparr>, None)"
proof -
  have w: "\<And>i f. i \<le> 10 \<Longrightarrow> andThen (be16 payload (int i) (int i + 2)) f =
         f (ucast (elems payload ! Suc i) OR push_bit 8 (ucast (elems payload ! i)))"
    using assms by (intro uint_be16_within) simp_all
  have w0: "\<And>f. andThen (be16 payload 0 2) f =
         f (ucast (elems payload ! Suc 0) OR push_bit 8 (ucast (elems payload ! 0)))"
    using w [of 0] by simp
  have w2: "\<And>f. andThen (be16 payload 2 4) f =
         f (ucast (elems payload ! Suc 2) OR push_bit 8 (ucast (elems payload ! 2)))"
    using w [of 2] by simp
  have w4: "\<And>f. andThen (be16 payload 4 6) f =
         f (ucast (elems payload ! Suc 4) OR push_bit 8 (ucast (elems payload ! 4)))"
    using w [of 4] by simp
  have w6: "\<And>f. andThen (be16 payload 6 8) f =
         f (ucast (elems payload ! Suc 6) OR push_bit 8 (ucast (elems payload ! 6)))"
    using w [of 6] by simp
  have w8: "\<And>f. andThen (be16 payload 8 10) f =
         f (ucast (elems payload ! Suc 8) OR push_bit 8 (ucast (elems payload ! 8)))"
    using w [of 8] by simp
  have w10: "\<And>f. andThen (be16 payload 10 12) f =
         f (ucast (elems payload ! Suc 10) OR push_bit 8 (ucast (elems payload ! 10)))"
    using w [of 10] by simp
  have s: "andThen (slice_to payload 2) Uint16 = be16 payload 0 2"
    by (simp add: be16_def slice_to_def)
  show ?thesis
    using assms
    by (simp add: DecodeDns_def DnsLen_def s w0 w2 w4 w6 w8 w10 DnsHeader_zero_def
        uint_top uint_field uint_flag uint_low uint_be16 word_at_def)
qed


text \<open>
  Claim C5. A payload shorter than 12 bytes gives the header-too-short error together with
  the zero header, whatever its bytes are. A payload of at least 12 bytes gives no error
  and the header read from its first 12 bytes: the id is the big-endian word at byte 0;
  with \<open>f\<close> the big-endian word at byte 2, QR is bit 15 of \<open>f\<close>, OPCODE bits 14 to 11,
  AA, TC, RD, RA, Z, AD and CD the bits 10 down to 4, and RCODE bits 3 to 0; the four
  counts are the big-endian words at bytes 4, 6, 8 and 10.
\<close>

theorem DecodeDns_contract:
  "(len payload < 12 \<longrightarrow>
      DecodeDns payload = Return (DnsHeader_zero, Some ErrDecodeDnsHeaderTooShort)) \<and>
   (12 \<le> len payload \<longrightarrow>
      DecodeDns payload =
        Return (\<lparr>Id = word_at payload 0,
              Qr = word_at payload 2 div 2 ^ 15,
              Opcode = word_at payload 2 div 2 ^ 11 mod 16,
              Aa = word_at payload 2 div 2 ^ 10 mod 2,
              Tc = word_at payload 2 div 2 ^ 9 mod 2,
              Rd = word_at payload 2 div 2 ^ 8 mod 2,
              Ra = word_at payload 2 div 2 ^ 7 mod 2,
              Z = word_at payload 2 div 2 ^ 6 mod 2,
              Ad = word_at payload 2 div 2 ^ 5 mod 2,
              Cd = word_at payload 2 div 2 ^ 4 mod 2,
              Rcode = word_at payload 2 mod 16,
              Qdcount = word_at payload 4,
              Ancount = word_at payload 6,
              Nscount = word_at payload 8,
              Arcount = word_at payload 10\<rparr>, None))"
  using DecodeDns_short [of payload] DecodeDns_long [of payload] by blast

theorem DecodeDns_contract_witness:
  "len (Slice [1, 2, 3] []) < 12 \<and>
   DecodeDns (Slice [1, 2, 3] []) = Return (DnsHeader_zero, Some ErrDecodeDnsHeaderTooShort) \<and>
   12 \<le> len (Slice [18, 52, 171, 205, 0, 1, 0, 2, 1, 0, 255, 255] [7]) \<and>
   DecodeDns (Slice [18, 52, 171, 205, 0, 1, 0, 2, 1, 0, 255, 255] [7]) =
     Return (\<lparr>Id = 4660, Qr = 1, Opcode = 5, Aa = 0, Tc = 1, Rd = 1, Ra = 1, Z = 1, Ad = 0,
              Cd = 0, Rcode = 13, Qdcount = 1, Ancount = 2, Nscount = 256, Arcount = 65535\<rparr>,
             None)"
  using DecodeDns_contract [of "Slice [1, 2, 3] []"]
    DecodeDns_contract [of "Slice [18, 52, 171, 205, 0, 1, 0, 2, 1, 0, 255, 255] [7]"]
  by (simp add: len_def word_at_def)

text \<open>
  Claim C9. Two payloads of at least 12 bytes with the same first 12 bytes decode to the
  same header, whatever follows byte 11 (and whatever lies in the spare capacity).
\<close>

theorem DecodeDns_first_12_bytes:
  assumes "12 \<le> len p" "12 \<le> len q" "take 12 (elems p) = take 12 (elems q)"
  shows "DecodeDns p = DecodeDns q"
proof -
  have "\<And>i. i < 12 \<Longrightarrow> elems p ! i = elems q ! i"
    using assms(3) by (metis nth_take)
  then have "\<And>i. i \<le> 10 \<Longrightarrow> word_at p i = word_at q i"
    by (simp add: word_at_def)
  then show ?thesis
    by (simp add: DecodeDns_long [OF assms(1)] DecodeDns_long [OF assms(2)])
qed

theorem DecodeDns_first_12_bytes_witness:
  "12 \<le> len (Slice [18, 52, 171, 205, 0, 1, 0, 2, 1, 0, 255, 255, 9, 9] []) \<and>
   12 \<le> len (Slice [18, 52, 171, 205, 0, 1, 0, 2, 1, 0, 255, 255] [7]) \<and>
   take 12 (elems (Slice [18, 52, 171, 205, 0, 1, 0, 2, 1, 0, 255, 255, 9, 9] [])) =
   take 12 (elems (Slice [18, 52, 171, 205, 0, 1, 0, 2, 1, 0, 255, 255] [7])) \<and>
   DecodeDns (Slice [18, 52, 171, 205, 0, 1, 0, 2, 1, 0, 255, 255, 9, 9] []) =
   DecodeDns (Slice [18, 52, 171, 205, 0, 1, 0, 2, 1, 0, 255, 255] [7])"
proof -
  have a: "12 \<le> len (Slice [18, 52, 171, 205, 0, 1, 0, 2, 1, 0, 255, 255, 9, 9] [])"
    by (simp add: len_def)
  have b: "12 \<le> len (Slice [18, 52, 171, 205, 0, 1, 0, 2, 1, 0, 255, 255] [7])"
    by (simp add: len_def)
  have c: "take 12 (elems (Slice [18, 52, 171, 205, 0, 1, 0, 2, 1, 0, 255, 255, 9, 9] [])) =
           take 12 (elems (Slice [18, 52, 171, 205, 0, 1, 0, 2, 1, 0, 255, 255] [7]))"
    by simp
  show ?thesis using a b c DecodeDns_first_12_bytes [OF a b c] by blast
qed

section \<open>Unknown record types and response codes\<close>

text \<open>
  Claim C8. For a 16-bit type code that is not a key of the record-type table, the name
  handed to \<^verbatim>\<open>ParseRdata\<close> is the one \<^verbatim>\<open>RdatatypeToString\<close> returns, and
  \<^verbatim>\<open>ParseRdata\<close> returns \<^verbatim>\<open>"-"\<close> and no error, whatever the rdata, the payload and the
  offset are. For a response code that is not a key of the rcode table,
  \<^verbatim>\<open>RcodeToString\<close> returns \<^verbatim>\<open>"UNKNOWN"\<close>. Both lookups return a string on every input.
\<close>

theorem unknown_type_and_rcode:
  "(Rdatatypes (uint (t :: 16 word)) = None \<longrightarrow>
      ParseRdata (RdatatypeToString (uint t)) rdata payload rdata_offset = Return (''-'', None)) \<and>
   (Rcodes rcode = None \<longrightarrow> RcodeToString rcode = ''UNKNOWN'')"
  by (simp add: RdatatypeToString_def RcodeToString_def ParseRdata_def)

theorem unknown_type_and_rcode_witness:
  "Rdatatypes (uint (31 :: 16 word)) = None \<and>
   ParseRdata (RdatatypeToString (uint (31 :: 16 word))) (Slice [1, 2] [0]) (Slice [0, 1, 2, 0] []) 1
     = Return (''-'', None) \<and>
   Rcodes 12 = None \<and> RcodeToString 12 = ''UNKNOWN''"
  using unknown_type_and_rcode [of 31 "Slice [1, 2] [0]" "Slice [0, 1, 2, 0] []" 1 12]
  by (simp add: Rdatatypes_def Rcodes_def)

section \<open>The gates of the filter\<close>

text \<open>
  Claim C10. \<^verbatim>\<open>CheckIfDrop\<close> returns true for a query when \<^verbatim>\<open>LogQueries\<close> is false and
  for a reply when \<^verbatim>\<open>LogReplies\<close> is false, whatever the dropped rcodes, the query-IP
  list, the domain lists and the other fields of the message are.
\<close>

theorem CheckIfDrop_gates_first:
  "(\<not> LogQueries (config p) \<and> DNS_Type dm = DnsQuery \<longrightarrow> CheckIfDrop DnsQuery DnsReply p dm) \<and>
   (\<not> LogReplies (config p) \<and> DNS_Type dm = DnsReply \<longrightarrow> CheckIfDrop DnsQuery DnsReply p dm)"
  by (simp add: CheckIfDrop_def)

theorem CheckIfDrop_gates_first_witness:
  "\<not> LogQueries (config \<lparr>config = \<lparr>LogQueries = False, LogReplies = True, DropRcodes = []\<rparr>,
        dropDomains = False, listQueryIp = Map.empty, listFqdns = Map.empty,
        listDomainsRegex = Map.empty\<rparr>) \<and>
   DNS_Type \<lparr>DNS_Type = ''QUERY'', DNS_Rcode = ''NOERROR'', DNS_Qname = ''example.com'',
        NetworkInfo_QueryIp = ''1.2.3.4''\<rparr> = ''QUERY'' \<and>
   CheckIfDrop ''QUERY'' ''REPLY''
     \<lparr>config = \<lparr>LogQueries = False, LogReplies = True, DropRcodes = []\<rparr>,
        dropDomains = False, listQueryIp = Map.empty, listFqdns = Map.empty,
        listDomainsRegex = Map.empty\<rparr>
     \<lparr>DNS_Type = ''QUERY'', DNS_Rcode = ''NOERROR'', DNS_Qname = ''example.com'',
        NetworkInfo_QueryIp = ''1.2.3.4''\<rparr> \<and>
   \<not> LogReplies (config \<lparr>config = \<lparr>LogQueries = True, LogReplies = False, DropRcodes = []\<rparr>,
        dropDomains = False, listQueryIp = Map.empty, listFqdns = Map.empty,
        listDomainsRegex = Map.empty\<rparr>) \<and>
   DNS_Type \<lparr>DNS_Type = ''REPLY'', DNS_Rcode = ''NOERROR'', DNS_Qname = ''example.com'',
        NetworkInfo_QueryIp = ''1.2.3.4''\<rparr> = ''REPLY'' \<and>
   CheckIfDrop ''QUERY'' ''REPLY''
     \<lparr>config = \<lparr>LogQueries = True, LogReplies = False, DropRcodes = []\<rparr>,
        dropDomains = False, listQueryIp = Map.empty, listFqdns = Map.empty,
        listDomainsRegex = Map.empty\<rparr>
     \<lparr>DNS_Type = ''REPLY'', DNS_Rcode = ''NOERROR'', DNS_Qname = ''example.com'',
        NetworkInfo_QueryIp = ''1.2.3.4''\<rparr>"
  using CheckIfDrop_gates_first [of
      "\<lparr>config = \<lparr>LogQueries = False, LogReplies = True, DropRcodes = []\<rparr>,
        dropDomains = False, listQueryIp = Map.empty, listFqdns = Map.empty,
        listDomainsRegex = Map.empty\<rparr>"
      "\<lparr>DNS_Type = ''QUERY'', DNS_Rcode = ''NOERROR'', DNS_Qname = ''example.com'',
        NetworkInfo_QueryIp = ''1.2.3.4''\<rparr>" "''QUERY''" "''REPLY''"]
    CheckIfDrop_gates_first [of
      "\<lparr>config = \<lparr>LogQueries = True, LogReplies = False, DropRcodes = []\<rparr>,
        dropDomains = False, listQueryIp = Map.empty, listFqdns = Map.empty,
        listDomainsRegex = Map.empty\<rparr>"
      "\<lparr>DNS_Type = ''REPLY'', DNS_Rcode = ''NOERROR'', DNS_Qname = ''example.com'',
        NetworkInfo_QueryIp = ''1.2.3.4''\<rparr>" "''QUERY''" "''REPLY''"]
  by simp

section \<open>One pass of the label loop\<close>

declare ParseLabels_loop.simps [simp del]

lemma index_within: "0 \<le> i \<Longrightarrow> i < len s \<Longrightarrow> index s i = Return (elems s ! nat i)"
  by (simp add: index_def)

lemma slice_within:
  assumes "0 \<le> lo" "lo \<le> hi" "hi \<le> len s"
  shows "slice s lo hi =
         Return (Slice (take (nat (hi - lo)) (drop (nat lo) (elems s)))
                       (drop (nat hi) (elems s) @ spare s))"
  using assms by (simp add: slice_def len_def cap_def)

lemma loop_invalid_offset:
  "len payload \<le> offset \<Longrightarrow>
   ParseLabels_loop offset payload pointers labels =
     Return ([], 0, Some ErrDecodeDnsLabelInvalidOffset)"
  by (simp add: ParseLabels_loop.simps)

lemma loop_zero:
  "0 \<le> offset \<Longrightarrow> offset < len payload \<Longrightarrow> elems payload ! nat offset = 0 \<Longrightarrow>
   ParseLabels_loop offset payload pointers labels = Return (Join labels ''.'', offset + 1, None)"
  by (simp add: ParseLabels_loop.simps [of offset] index_within)

lemma loop_pointer:
  assumes "0 \<le> offset" "offset + 2 \<le> len payload"
    and "drop_bit 6 (uint (elems payload ! nat offset)) = 3"
    and "ptr = (ucast (elems payload ! nat (offset + 1)) OR
                push_bit 8 (ucast (elems payload ! nat offset))) AND 16383"
  shows "ParseLabels_loop offset payload pointers labels =
     (if pointers ptr \<noteq> None
      then Return ([], 0, Some ErrDecodeDnsLabelInvalidOffsetInfiniteLoop)
      else andThen (ParseLabels_loop (uint ptr) payload (pointers(ptr \<mapsto> 1)) [])
             (\<lambda>(label, _, err).
                 if err \<noteq> None then Return ([], 0, err)
                 else Return (Join (labels @ [label]) ''.'', offset + 2, None)))"
proof -
  have "uint (elems payload ! nat offset) \<noteq> 0" using assms(3) by auto
  then show ?thesis
    using assms
    by (simp add: ParseLabels_loop.simps [of offset] index_within be16_within Let_def)
qed

lemma loop_too_short:
  assumes "0 \<le> offset" "offset < len payload"
    and "uint (elems payload ! nat offset) \<noteq> 0"
    and "drop_bit 6 (uint (elems payload ! nat offset)) \<noteq> 3"
    and "len payload \<le> offset + uint (elems payload ! nat offset) + 1"
  shows "ParseLabels_loop offset payload pointers labels =
         Return ([], 0, Some ErrDecodeDnsLabelTooShort)"
  using assms by (simp add: ParseLabels_loop.simps [of offset] index_within)

lemma loop_label:
  assumes "0 \<le> offset" 
    and "uint (elems payload ! nat offset) \<noteq> 0"
    and "drop_bit 6 (uint (elems payload ! nat offset)) \<noteq> 3"
    and "offset + uint (elems payload ! nat offset) + 1 < len payload"
  shows "ParseLabels_loop offset payload pointers labels =
         ParseLabels_loop (offset + uint (elems payload ! nat offset) + 1) payload pointers
           (labels @ [map (\<lambda>x. char_of (unat x))
                        (take (nat (uint (elems payload ! nat offset)))
                           (drop (nat (offset + 1)) (elems payload)))])"
proof -
  have "offset < len payload" using assms(4) uint_ge_0 [of "elems payload ! nat offset"]
    by linarith
  then show ?thesis
  using assms
  by (simp add: ParseLabels_loop.simps [of offset] index_within slice_within string_of_def)
qed

declare name_end.simps [simp del]

lemma low_14_bits: "(w :: 16 word) AND 16383 = word_of_int (uint w mod 16384)"
  using and_mask_mod_2p [of w 14] by (simp add: mask_eq_exp_minus_1)

lemma loop_Ends:
  "name_end payload offset = Ends off \<Longrightarrow>
   \<exists>name. ParseLabels_loop offset payload pointers labels = Return (name, off, None)"
proof (induction payload offset arbitrary: labels rule: name_end.induct)
  case (1 payload offset)
  let ?L = "uint (elems payload ! nat offset)"
  from "1.prems" have range: "0 \<le> offset" "offset < len payload"
    by (auto simp: name_end.simps [of payload offset] split: if_splits)
  show ?case
  proof (cases "?L = 0")
    case True
    with "1.prems" range have "off = offset + 1"
      by (simp add: name_end.simps [of payload offset])
    moreover from True have "elems payload ! nat offset = 0" by (simp add: uint_0_iff)
    ultimately show ?thesis using range by (simp add: loop_zero)
  next
    case False
    with "1.prems" range have lit: "drop_bit 6 ?L \<noteq> 3" "offset + ?L + 1 < len payload"
      and nxt: "name_end payload (offset + ?L + 1) = Ends off"
      by (auto simp: name_end.simps [of payload offset] Let_def split: if_splits)
    from "1.IH" [OF _ refl False lit(1) _ nxt] range lit
    obtain name where "ParseLabels_loop (offset + ?L + 1) payload pointers
          (labels @ [map (\<lambda>x. char_of (unat x)) (take (nat ?L) (drop (nat (offset + 1)) (elems payload)))])
         = Return (name, off, None)"
      by fastforce
    then show ?thesis
      using range False lit by (simp add: loop_label)
  qed
qed


lemma loop_Points:
  "name_end payload offset = Points t off \<Longrightarrow>
   \<exists>labels'. ParseLabels_loop offset payload pointers labels =
     (if pointers t \<noteq> None
      then Return ([], 0, Some ErrDecodeDnsLabelInvalidOffsetInfiniteLoop)
      else andThen (ParseLabels_loop (uint t) payload (pointers(t \<mapsto> 1)) [])
             (\<lambda>(label, _, err).
                 if err \<noteq> None then Return ([], 0, err)
                 else Return (Join (labels' @ [label]) ''.'', off, None)))"
proof (induction payload offset arbitrary: labels rule: name_end.induct)
  case (1 payload offset)
  let ?L = "uint (elems payload ! nat offset)"
  from "1.prems" have range: "0 \<le> offset" "offset < len payload"
    by (auto simp: name_end.simps [of payload offset] split: if_splits)
  from "1.prems" range have nz: "?L \<noteq> 0"
    by (auto simp: name_end.simps [of payload offset])
  show ?case
  proof (cases "drop_bit 6 ?L = 3")
    case True
    with "1.prems" range nz have p: "offset + 2 \<le> len payload" "off = offset + 2"
      "t = word_of_int (word_at payload (nat offset) mod 16384)"
      by (auto simp: name_end.simps [of payload offset] Let_def split: if_splits)
    have "nat (offset + 1) = Suc (nat offset)" using range by simp
    then have "t = (ucast (elems payload ! nat (offset + 1)) OR
                push_bit 8 (ucast (elems payload ! nat offset))) AND 16383"
      by (simp add: p(3) low_14_bits uint_be16 word_at_def)
    from loop_pointer [OF range(1) p(1) True this, of pointers labels] p(2)
    show ?thesis by blast
  next
    case False
    with "1.prems" range nz have lit: "offset + ?L + 1 < len payload"
      and nxt: "name_end payload (offset + ?L + 1) = Points t off"
      by (auto simp: name_end.simps [of payload offset] Let_def split: if_splits)
    have eq: "ParseLabels_loop offset payload pointers labels =
          ParseLabels_loop (offset + ?L + 1) payload pointers
          (labels @ [map (\<lambda>x. char_of (unat x)) (take (nat ?L) (drop (nat (offset + 1)) (elems payload)))])"
      using range nz False lit by (simp add: loop_label)
    from "1.IH" [OF _ refl nz False _ nxt] range lit
    show ?thesis unfolding eq by fastforce
  qed
qed

lemma loop_cycle:
  "follows payload offset ts \<Longrightarrow> \<not> distinct ts \<or> set ts \<inter> dom pointers \<noteq> {} \<Longrightarrow>
   ParseLabels_loop offset payload pointers labels =
     Return ([], 0, Some ErrDecodeDnsLabelInvalidOffsetInfiniteLoop)"
proof (induction ts arbitrary: offset pointers labels)
  case Nil
  then show ?case by simp
next
  case (Cons t ts)
  from Cons.prems(1) obtain off where pt: "name_end payload offset = Points t off"
    and rest: "follows payload (uint t) ts"
    by (auto simp: target_def split: ending.splits)
  from loop_Points [OF pt, of pointers labels] obtain labels' where
    eq: "ParseLabels_loop offset payload pointers labels =
     (if pointers t \<noteq> None
      then Return ([], 0, Some ErrDecodeDnsLabelInvalidOffsetInfiniteLoop)
      else andThen (ParseLabels_loop (uint t) payload (pointers(t \<mapsto> 1)) [])
             (\<lambda>(label, _, err).
                 if err \<noteq> None then Return ([], 0, err)
                 else Return (Join (labels' @ [label]) ''.'', off, None)))"
    by blast
  show ?case
  proof (cases "pointers t \<noteq> None")
    case True
    then show ?thesis by (simp add: eq)
  next
    case False
    with Cons.prems(2) have "\<not> distinct ts \<or> set ts \<inter> dom (pointers(t \<mapsto> 1)) \<noteq> {}"
      by auto
    from Cons.IH [OF rest this, of "[]"]
    have r: "ParseLabels_loop (uint t) payload (pointers(t \<mapsto> 1)) [] =
          Return ([], 0, Some ErrDecodeDnsLabelInvalidOffsetInfiniteLoop)" .
    from False show ?thesis by (simp add: eq r)
  qed
qed

lemma loop_chain:
  "chain payload offset ts \<Longrightarrow> distinct ts \<Longrightarrow> set ts \<inter> dom pointers = {} \<Longrightarrow>
   \<exists>name off. end_offset payload offset = Some off \<and>
     ParseLabels_loop offset payload pointers labels = Return (name, off, None)"
proof (induction ts arbitrary: offset pointers labels)
  case Nil
  then obtain off where "name_end payload offset = Ends off"
    by (auto split: ending.splits)
  with loop_Ends [OF this, of pointers labels] show ?case
    by (auto simp: end_offset_def)
next
  case (Cons t ts)
  from Cons.prems(1) obtain off where pt: "name_end payload offset = Points t off"
    and rest: "chain payload (uint t) ts"
    by (auto simp: target_def split: ending.splits)
  from loop_Points [OF pt, of pointers labels] obtain labels' where
    eq: "ParseLabels_loop offset payload pointers labels =
     (if pointers t \<noteq> None
      then Return ([], 0, Some ErrDecodeDnsLabelInvalidOffsetInfiniteLoop)
      else andThen (ParseLabels_loop (uint t) payload (pointers(t \<mapsto> 1)) [])
             (\<lambda>(label, _, err).
                 if err \<noteq> None then Return ([], 0, err)
                 else Return (Join (labels' @ [label]) ''.'', off, None)))"
    by blast
  from Cons.prems have fresh: "pointers t = None" and d: "distinct ts"
    and "set ts \<inter> dom (pointers(t \<mapsto> 1)) = {}"
    by auto
  from Cons.IH [OF rest d this(3), of "[]"] obtain name off' where
    r: "ParseLabels_loop (uint t) payload (pointers(t \<mapsto> 1)) [] = Return (name, off', None)"
    by blast
  from fresh pt show ?case by (simp add: eq r end_offset_def)
qed

lemma pointer_inside:
  assumes good: "elems payload = [] \<or> drop_bit 6 (uint (last (elems payload))) \<noteq> 3"
    and "0 \<le> offset" "offset < len payload"
    and "drop_bit 6 (uint (elems payload ! nat offset)) = 3"
  shows "offset + 2 \<le> len payload"
proof (rule ccontr)
  assume "\<not> offset + 2 \<le> len payload"
  with assms(2,3) have "nat offset = length (elems payload) - 1" "elems payload \<noteq> []"
    by (auto simp: len_def)
  then have "elems payload ! nat offset = last (elems payload)"
    by (simp add: last_conv_nth)
  with good assms(4) \<open>elems payload \<noteq> []\<close> show False by simp
qed

lemma loop_safe:
  "elems payload = [] \<or> drop_bit 6 (uint (last (elems payload))) \<noteq> 3 \<Longrightarrow> 0 \<le> offset \<Longrightarrow>
   ParseLabels_loop offset payload pointers labels \<noteq> Panic \<and>
   ParseLabels_loop offset (Slice (elems payload) sp) pointers labels =
   ParseLabels_loop offset payload pointers labels"
proof (induction offset payload pointers labels rule: ParseLabels_loop.induct)
  case (1 offset payload pointers labels)
  let ?q = "Slice (elems payload) sp"
  let ?b = "elems payload ! nat offset"
  let ?L = "uint ?b"
  have q: "len ?q = len payload" "elems ?q = elems payload" by (simp_all add: len_def)
  note good = "1.prems"(1) and pos = "1.prems"(2)
  show ?case
  proof (cases "len payload \<le> offset")
    case True
    then show ?thesis using q by (simp add: loop_invalid_offset)
  next
    case inside: False
    then have lt: "offset < len payload" by simp
    show ?thesis
    proof (cases "?L = 0")
      case True
      then have "?b = 0" by (simp add: uint_0_iff)
      then show ?thesis using pos lt q by (simp add: loop_zero)
    next
      case nz: False
      show ?thesis
      proof (cases "drop_bit 6 ?L = 3")
        case ptr: True
        define p :: "16 word" where "p = (ucast (elems payload ! nat (offset + 1)) OR
                push_bit 8 (ucast ?b)) AND 16383"
        have two: "offset + 2 \<le> len payload"
          using pointer_inside [OF good pos lt ptr] .
        note e1 = loop_pointer [OF pos two ptr p_def, of pointers labels]
        have "p = (ucast (elems ?q ! nat (offset + 1)) OR
                push_bit 8 (ucast (elems ?q ! nat offset))) AND 16383"
          by (simp add: p_def)
        note e2 = loop_pointer [of offset ?q, OF pos _ _ this, of pointers labels]
        show ?thesis
        proof (cases "pointers p \<noteq> None")
          case True
          then show ?thesis using e1 e2 two ptr q by simp
        next
          case False
          have nn: "0 \<le> uint p" by simp
          from "1.IH"(1) [OF inside refl nz ptr p_def False good nn]
          have r: "ParseLabels_loop (uint p) payload (pointers(p \<mapsto> 1)) [] \<noteq> Panic"
            "ParseLabels_loop (uint p) ?q (pointers(p \<mapsto> 1)) [] =
             ParseLabels_loop (uint p) payload (pointers(p \<mapsto> 1)) []"
            by blast+
          from r(1) obtain label off err where
            v: "ParseLabels_loop (uint p) payload (pointers(p \<mapsto> 1)) [] =
                Return (label, off, err)"
            by (cases "ParseLabels_loop (uint p) payload (pointers(p \<mapsto> 1)) []") auto
          have "ParseLabels_loop offset payload pointers labels \<noteq> Panic"
            using False by (simp add: e1 v)
          moreover have "ParseLabels_loop offset ?q pointers labels =
              ParseLabels_loop offset payload pointers labels"
            using False two ptr q r(2) by (simp add: e1 e2)
          ultimately show ?thesis by simp
        qed
      next
        case lit: False
        show ?thesis
        proof (cases "len payload \<le> offset + ?L + 1")
          case True
          then show ?thesis using pos lt nz lit q by (simp add: loop_too_short)
        next
          case False
          then have fit: "offset + ?L + 1 < len payload" by simp
          let ?x = "Slice (take (nat ?L) (drop (nat (offset + 1)) (elems payload))) []"
          have s: "string_of ?x = map (\<lambda>x. char_of (unat x))
                 (take (nat ?L) (drop (nat (offset + 1)) (elems payload)))"
            by (simp add: string_of_def)
          have "0 \<le> offset + ?L + 1" using pos by simp
          note ih = "1.IH"(2) [OF inside refl nz lit False good this, of ?x, unfolded s]
          show ?thesis
            using ih pos nz lit fit q by (simp add: loop_label)
        qed
      qed
    qed
  qed
qed

section \<open>Bounds of the label resolver\<close>

text \<open>
  Claim C2, as amended. \<^verbatim>\<open>ParseLabels\<close> is the pass of the loop from the empty map and
  the empty label list. For every payload and every offset that is not negative:
  a pass of the loop at an offset at or past the end of the payload returns the
  invalid-offset error; at a literal label length byte \<open>L\<close> (not 0, top two bits not both
  set) the loop extracts exactly the \<open>L\<close> bytes of the payload behind the length byte and
  goes on at \<open>offset + L + 1\<close> if and only if \<open>offset + L + 1 < len payload\<close>, that is,
  if the payload holds the label and at least one byte more, and returns the
  label-too-short error otherwise; and when the last byte of the payload does not have
  both top bits set, \<^verbatim>\<open>ParseLabels\<close> does not panic and returns the same result whatever
  lies in the spare capacity behind the payload. Nothing is said about a compression
  pointer whose first byte is the last byte of the payload.
\<close>

theorem label_resolver_bounds:
  assumes "0 \<le> offset"
  shows "ParseLabels offset payload = ParseLabels_loop offset payload Map.empty [] \<and>
    (len payload \<le> offset \<longrightarrow>
       ParseLabels_loop offset payload pointers labels =
         Return ([], 0, Some ErrDecodeDnsLabelInvalidOffset)) \<and>
    (offset < len payload \<and> L = uint (elems payload ! nat offset) \<and> L \<noteq> 0 \<and>
     drop_bit 6 L \<noteq> 3 \<longrightarrow>
       ParseLabels_loop offset payload pointers labels =
         (if offset + L + 1 < len payload
          then ParseLabels_loop (offset + L + 1) payload pointers
                 (labels @ [map (\<lambda>x. char_of (unat x))
                              (take (nat L) (drop (nat (offset + 1)) (elems payload)))])
          else Return ([], 0, Some ErrDecodeDnsLabelTooShort))) \<and>
    (elems payload = [] \<or> drop_bit 6 (uint (last (elems payload))) \<noteq> 3 \<longrightarrow>
       ParseLabels offset payload \<noteq> Panic \<and>
       ParseLabels offset (Slice (elems payload) sp) = ParseLabels offset payload)"
proof (intro conjI impI)
  show "ParseLabels offset payload = ParseLabels_loop offset payload Map.empty []"
    by (simp add: ParseLabels_def ParseLabels_rec_def)
next
  assume "len payload \<le> offset"
  then show "ParseLabels_loop offset payload pointers labels =
         Return ([], 0, Some ErrDecodeDnsLabelInvalidOffset)"
    by (rule loop_invalid_offset)
next
  assume a: "offset < len payload \<and> L = uint (elems payload ! nat offset) \<and> L \<noteq> 0 \<and>
     drop_bit 6 L \<noteq> 3"
  show "ParseLabels_loop offset payload pointers labels =
         (if offset + L + 1 < len payload
          then ParseLabels_loop (offset + L + 1) payload pointers
                 (labels @ [map (\<lambda>x. char_of (unat x))
                              (take (nat L) (drop (nat (offset + 1)) (elems payload)))])
          else Return ([], 0, Some ErrDecodeDnsLabelTooShort))"
  proof (cases "offset + L + 1 < len payload")
    case True
    from a True have f: "uint (elems payload ! nat offset) \<noteq> 0"
      "drop_bit 6 (uint (elems payload ! nat offset)) \<noteq> 3"
      "offset + uint (elems payload ! nat offset) + 1 < len payload"
      by auto
    from loop_label [OF assms f, of pointers labels] a True show ?thesis by simp
  next
    case False
    from a False have f: "offset < len payload" "uint (elems payload ! nat offset) \<noteq> 0"
      "drop_bit 6 (uint (elems payload ! nat offset)) \<noteq> 3"
      "len payload \<le> offset + uint (elems payload ! nat offset) + 1"
      by auto
    from loop_too_short [OF assms f, of pointers labels] a False show ?thesis by simp
  qed
next
  assume g: "elems payload = [] \<or> drop_bit 6 (uint (last (elems payload))) \<noteq> 3"
  from loop_safe [OF g assms, of Map.empty "[]" sp]
  show "ParseLabels offset payload \<noteq> Panic"
    by (simp add: ParseLabels_def ParseLabels_rec_def)
next
  assume g: "elems payload = [] \<or> drop_bit 6 (uint (last (elems payload))) \<noteq> 3"
  from loop_safe [OF g assms, of Map.empty "[]" sp]
  show "ParseLabels offset (Slice (elems payload) sp) = ParseLabels offset payload"
    by (simp add: ParseLabels_def ParseLabels_rec_def)
qed

theorem label_resolver_bounds_witness:
  "(0::int) \<le> 3 \<and> len (Slice [1, 97, 0] [9]) \<le> 3 \<and>
   ParseLabels_loop 3 (Slice [1, 97, 0] [9]) Map.empty [] =
     Return ([], 0, Some ErrDecodeDnsLabelInvalidOffset) \<and>
   (0::int) \<le> 0 \<and> 0 < len (Slice [1, 97, 0] [9]) \<and>
   uint (elems (Slice [1, 97, 0] [9]) ! nat 0) = 1 \<and> drop_bit 6 (1::int) \<noteq> 3 \<and>
   0 + 1 + 1 < len (Slice [1, 97, 0] [9]) \<and>
   ParseLabels_loop 0 (Slice [1, 97, 0] [9]) Map.empty [] =
     ParseLabels_loop 2 (Slice [1, 97, 0] [9]) Map.empty [''a''] \<and>
   drop_bit 6 (uint (last (elems (Slice [1, 97, 0] [9])))) \<noteq> 3 \<and>
   ParseLabels 0 (Slice [1, 97, 0] [9]) \<noteq> Panic \<and>
   ParseLabels 0 (Slice (elems (Slice [1, 97, 0] [9])) []) = ParseLabels 0 (Slice [1, 97, 0] [9]) \<and>
   \<not> 0 + 1 + 1 < len (Slice [1, 97] []) \<and>
   ParseLabels_loop 0 (Slice [1, 97] []) Map.empty [] =
     Return ([], 0, Some ErrDecodeDnsLabelTooShort)"
proof -
  let ?P = "Slice [1, 97, 0] [9]"
  let ?Q = "Slice [1, 97] []"
  have z: "(0::int) \<le> 0" "(0::int) \<le> 3" by simp_all
  have h1: "len ?P \<le> 3" by (simp add: len_def)
  have h2: "0 < len ?P" "uint (elems ?P ! nat 0) = 1" "drop_bit 6 (1::int) \<noteq> 3"
    "0 + 1 + 1 < len ?P" by (simp_all add: len_def drop_bit_eq_div)
  have h3: "drop_bit 6 (uint (last (elems ?P))) \<noteq> 3" by simp
  have h4: "0 < len ?Q" "uint (elems ?Q ! nat 0) = 1" "\<not> 0 + 1 + 1 < len ?Q"
    by (simp_all add: len_def)
  have e: "map (\<lambda>x. char_of (unat x)) (take (nat 1) (drop (nat (0 + 1)) (elems ?P))) = ''a''"
    by code_simp
  have c1: "ParseLabels_loop 3 ?P Map.empty [] =
     Return ([], 0, Some ErrDecodeDnsLabelInvalidOffset)"
    using label_resolver_bounds [OF z(2), of ?P Map.empty "[]" 1 "[]"] h1 by blast
  have c2: "ParseLabels_loop 0 ?P Map.empty [] = ParseLabels_loop 2 ?P Map.empty [''a'']"
    using label_resolver_bounds [OF z(1), of ?P Map.empty "[]" 1 "[]"] h2 e by simp
  have c3: "ParseLabels 0 ?P \<noteq> Panic"
    "ParseLabels 0 (Slice (elems ?P) []) = ParseLabels 0 ?P"
    using label_resolver_bounds [OF z(1), of ?P Map.empty "[]" 1 "[]"] h3 by blast+
  have c4: "ParseLabels_loop 0 ?Q Map.empty [] = Return ([], 0, Some ErrDecodeDnsLabelTooShort)"
    using label_resolver_bounds [OF z(1), of ?Q Map.empty "[]" 1 "[]"] h4 h2(3) by simp
  from z h1 h2 h3 h4(3) c1 c2 c3 c4 show ?thesis by blast
qed

text \<open>
  The claim as stated fails at four inputs. The payload \<^verbatim>\<open>[1, 'a']\<close> holds the one byte
  that its length byte announces, and the resolver returns the label-too-short error.
  The payload \<^verbatim>\<open>[0xC0]\<close> ends in the first byte of a compression pointer: without spare
  capacity the resolver panics, and with one spare byte the result depends on that byte,
  which lies outside the payload. At offset \<open>-1\<close> the resolver panics.
\<close>

theorem label_resolver_counterexample:
  "1 \<le> len (Slice [1, 97] []) - (0 + 1) \<and>
   ParseLabels 0 (Slice [1, 97] []) = Return ([], 0, Some ErrDecodeDnsLabelTooShort) \<and>
   ParseLabels 0 (Slice [192] []) = Panic \<and>
   ParseLabels 0 (Slice [192] [0]) =
     Return ([], 0, Some ErrDecodeDnsLabelInvalidOffsetInfiniteLoop) \<and>
   ParseLabels 0 (Slice [192] [1]) = Return ([], 0, Some ErrDecodeDnsLabelInvalidOffset) \<and>
   ParseLabels (- 1) (Slice [0] []) = Panic"
  by code_simp

section \<open>Chains of compression pointers\<close>

text \<open>
  Claim C3. The resolver is a total function: its recursion is well-founded, since a
  followed pointer marks a target that was not marked before and a literal label moves
  the offset towards the end of the payload. If following pointers from the offset leads
  through a list of targets in which one target occurs twice (a pointer to itself, or
  pointers that refer to one another), \<^verbatim>\<open>ParseLabels\<close> returns the infinite-loop error.
  If it leads through distinct targets to a name that ends in a zero byte,
  \<^verbatim>\<open>ParseLabels\<close> returns a name, no error, and the offset behind the first zero byte
  or pointer.
\<close>

theorem ParseLabels_pointer_chains:
  "(follows payload offset ts \<and> \<not> distinct ts \<longrightarrow>
      ParseLabels offset payload =
        Return ([], 0, Some ErrDecodeDnsLabelInvalidOffsetInfiniteLoop)) \<and>
   (chain payload offset ts \<and> distinct ts \<longrightarrow>
      (\<exists>name off. end_offset payload offset = Some off \<and>
         ParseLabels offset payload = Return (name, off, None)))"
  using loop_cycle [of payload offset ts Map.empty "[]"]
    loop_chain [of payload offset ts Map.empty "[]"]
  by (simp add: ParseLabels_def ParseLabels_rec_def)

theorem ParseLabels_pointer_chains_witness:
  "follows (Slice [192, 0] []) 0 [0, 0] \<and> \<not> distinct [0, 0 :: 16 word] \<and>
   ParseLabels 0 (Slice [192, 0] []) =
     Return ([], 0, Some ErrDecodeDnsLabelInvalidOffsetInfiniteLoop) \<and>
   follows (Slice [1, 120, 192, 4, 1, 121, 192, 0] []) 0 [4, 0, 4] \<and>
   \<not> distinct [4, 0, 4 :: 16 word] \<and>
   ParseLabels 0 (Slice [1, 120, 192, 4, 1, 121, 192, 0] []) =
     Return ([], 0, Some ErrDecodeDnsLabelInvalidOffsetInfiniteLoop) \<and>
   chain (Slice [192, 2, 192, 4, 3, 97, 98, 99, 0] []) 0 [2, 4] \<and> distinct [2, 4 :: 16 word] \<and>
   (\<exists>name off. end_offset (Slice [192, 2, 192, 4, 3, 97, 98, 99, 0] []) 0 = Some off \<and>
      ParseLabels 0 (Slice [192, 2, 192, 4, 3, 97, 98, 99, 0] []) = Return (name, off, None))"
proof -
  let ?P = "Slice [192, 0] []"
  let ?Q = "Slice [1, 120, 192, 4, 1, 121, 192, 0] []"
  let ?R = "Slice [192, 2, 192, 4, 3, 97, 98, 99, 0] []"
  have p: "follows ?P 0 [0, 0]" by code_simp
  have q: "follows ?Q 0 [4, 0, 4]" by code_simp
  have r: "chain ?R 0 [2, 4]" by code_simp
  have d: "\<not> distinct [0, 0 :: 16 word]" "\<not> distinct [4, 0, 4 :: 16 word]"
    "distinct [2, 4 :: 16 word]" by simp_all
  from ParseLabels_pointer_chains [of ?P 0 "[0, 0]"] p d(1)
  have c1: "ParseLabels 0 ?P = Return ([], 0, Some ErrDecodeDnsLabelInvalidOffsetInfiniteLoop)"
    by blast
  from ParseLabels_pointer_chains [of ?Q 0 "[4, 0, 4]"] q d(2)
  have c2: "ParseLabels 0 ?Q = Return ([], 0, Some ErrDecodeDnsLabelInvalidOffsetInfiniteLoop)"
    by blast
  from ParseLabels_pointer_chains [of ?R 0 "[2, 4]"] r d(3)
  have c3: "\<exists>name off. end_offset ?R 0 = Some off \<and> ParseLabels 0 ?R = Return (name, off, None)"
    by blast
  from p q r d c1 c2 c3 show ?thesis by blast
qed

section \<open>The answer section and OPT records\<close>

text \<open>
  Claim C1. A section of three records, an A record, an OPT record (type 41) and a second
  A record, all with the root name, is decoded from offset 0 with \<^verbatim>\<open>ancount = 3\<close>. The
  claim expects two answers and the final offset 41. The \<^verbatim>\<open>continue\<close> of the OPT branch
  skips the assignment to \<^verbatim>\<open>offset\<close>, so the third iteration decodes the OPT record
  again: the result holds one answer and the offset 15, the end of the first record.
\<close>

theorem DecodeAnswer_OPT_between_two_records:
  "DecodeAnswer 3 0 (Slice
     [0, 0, 1, 0, 1, 0, 0, 0, 0, 0, 4, 1, 2, 3, 4,
      0, 0, 41, 16, 0, 0, 0, 0, 0, 0, 0,
      0, 0, 1, 0, 1, 0, 0, 0, 0, 0, 4, 5, 6, 7, 8] []) =
   Return ([\<lparr>Name = [], Rdatatype = ''A'', Class = 1, Ttl = 0, Rdata = ''1.2.3.4''\<rparr>],
           15, None)"
  by code_simp

text \<open>
  Claim C4. A section of one OPT record of 11 bytes (root name, 10 fixed bytes, no
  rdata) is decoded from offset 0 with \<^verbatim>\<open>ancount = 1\<close>. The call succeeds, and the claim
  expects the final cursor 11; the cursor is returned as 0.
\<close>

theorem DecodeAnswer_single_OPT_cursor:
  "DecodeAnswer 1 0 (Slice [0, 0, 41, 16, 0, 0, 0, 0, 0, 0, 0] []) = Return ([], 0, None)"
  by code_simp

section \<open>The resource-data parsers on short rdata\<close>

text \<open>
  Claim C6. \<^verbatim>\<open>ParseTXT\<close> on empty rdata panics at \<^verbatim>\<open>rdata[0]\<close>, also when it is reached
  through \<^verbatim>\<open>DecodeAnswer\<close> by a TXT record with \<^verbatim>\<open>rdlength = 0\<close>. A TXT record whose
  rdata are the two bytes 5 and \<^verbatim>\<open>h\<close>, followed in the payload by the four bytes
  \<^verbatim>\<open>ijkl\<close>, is rendered as \<^verbatim>\<open>hijkl\<close>: the slice expression reaches past the rdata into
  its spare capacity. \<^verbatim>\<open>ParseSOA\<close> panics when three bytes remain after its two names.
\<close>

theorem rdata_parsers_out_of_bounds:
  "ParseTXT (Slice [] []) = Panic \<and>
   DecodeAnswer 1 0 (Slice [0, 0, 16, 0, 1, 0, 0, 0, 0, 0, 0] []) = Panic \<and>
   DecodeAnswer 1 0
     (Slice [0, 0, 16, 0, 1, 0, 0, 0, 0, 0, 2, 5, 104, 105, 106, 107, 108] []) =
     Return ([\<lparr>Name = [], Rdatatype = ''TXT'', Class = 1, Ttl = 0, Rdata = ''hijkl''\<rparr>],
             13, None) \<and>
   ParseSOA 0 (Slice [0, 0, 1, 2, 3] []) = Panic"
  by code_simp

section \<open>The question decoder\<close>

text \<open>
  Claim C7. The payload has 13 bytes, twelve zero bytes and the byte 192 at offset 12,
  the first byte of a compression pointer. With one spare byte 0 in the backing array the
  label resolver reads the pointer across the end of the payload and returns the name
  with offset 14 and no error; \<^verbatim>\<open>payload[14:]\<close> then panics, where the claim expects the
  question-qtype-too-short error. Without spare capacity the resolver itself panics at
  \<^verbatim>\<open>payload[12:14]\<close>.
\<close>

theorem DecodeQuestion_pointer_in_last_byte:
  "ParseLabels 12 (Slice [0, 0, 0, 0, 0, 0, 0, 0, 0, 0, 0, 0, 192] [0]) = Return ([], 14, None) \<and>
   DecodeQuestion (Slice [0, 0, 0, 0, 0, 0, 0, 0, 0, 0, 0, 0, 192] [0]) = Panic \<and>
   DecodeQuestion (Slice [0, 0, 0, 0, 0, 0, 0, 0, 0, 0, 0, 0, 192] []) = Panic"
  by code_simp

end
